theory Spec2Isabelle
  imports Main
begin

section \<open>JavaScript strings and the string methods the handlers call\<close>

text \<open>
  A JavaScript string is a sequence of UTF-16 code units. The model is \<^typ>\<open>string\<close>, one
  \<^typ>\<open>char\<close> for each code unit from U+0000 to U+00FF, so that every string of the
  model is a string the handlers can receive, and on this range the functions below are the
  ECMAScript ones.

  \<open>String.prototype.trim\<close> and the regular expression class \<open>\s\<close> use the same set, the
  white space and line terminator code points; below U+0100 these are U+0009 to U+000D,
  U+0020 and U+00A0.
\<close>

definition isWhiteSpace :: "char \<Rightarrow> bool" where
  "isWhiteSpace c \<longleftrightarrow>
     c \<in> set [CHR 0x09, CHR 0x0A, CHR 0x0B, CHR 0x0C, CHR 0x0D, CHR 0x20, CHR 0xA0]"

definition trim :: "string \<Rightarrow> string" where
  "trim s = rev (dropWhile isWhiteSpace (rev (dropWhile isWhiteSpace s)))"

text \<open>
  \<open>String.prototype.toLowerCase\<close>: below U+0100 the letters with a lower-case mapping are
  A to Z and U+00C0 to U+00DE without the multiplication sign U+00D7; each maps to the code
  unit 32 above it.
\<close>

definition upperCaseLetters :: string where
  "upperCaseLetters = ''ABCDEFGHIJKLMNOPQRSTUVWXYZ'' @
     [CHR 0xC0, CHR 0xC1, CHR 0xC2, CHR 0xC3, CHR 0xC4, CHR 0xC5, CHR 0xC6, CHR 0xC7,
      CHR 0xC8, CHR 0xC9, CHR 0xCA, CHR 0xCB, CHR 0xCC, CHR 0xCD, CHR 0xCE, CHR 0xCF,
      CHR 0xD0, CHR 0xD1, CHR 0xD2, CHR 0xD3, CHR 0xD4, CHR 0xD5, CHR 0xD6,
      CHR 0xD8, CHR 0xD9, CHR 0xDA, CHR 0xDB, CHR 0xDC, CHR 0xDD, CHR 0xDE]"

definition lowerCaseLetters :: string where
  "lowerCaseLetters = ''abcdefghijklmnopqrstuvwxyz'' @
     [CHR 0xE0, CHR 0xE1, CHR 0xE2, CHR 0xE3, CHR 0xE4, CHR 0xE5, CHR 0xE6, CHR 0xE7,
      CHR 0xE8, CHR 0xE9, CHR 0xEA, CHR 0xEB, CHR 0xEC, CHR 0xED, CHR 0xEE, CHR 0xEF,
      CHR 0xF0, CHR 0xF1, CHR 0xF2, CHR 0xF3, CHR 0xF4, CHR 0xF5, CHR 0xF6,
      CHR 0xF8, CHR 0xF9, CHR 0xFA, CHR 0xFB, CHR 0xFC, CHR 0xFD, CHR 0xFE]"

definition toLowerChar :: "char \<Rightarrow> char" where
  "toLowerChar c =
     (case map_of (zip upperCaseLetters lowerCaseLetters) c of Some l \<Rightarrow> l | None \<Rightarrow> c)"

definition toLowerCase :: "string \<Rightarrow> string" where
  "toLowerCase s = map toLowerChar s"

definition startsWith :: "string \<Rightarrow> string \<Rightarrow> bool" where
  "startsWith s p \<longleftrightarrow> take (length p) s = p"

text \<open>
  \<open>s.split(sep)\<close> for a one-character separator: the pieces between the separators, in
  order, empty pieces kept; the empty string gives one empty piece.
\<close>

fun split_js :: "char \<Rightarrow> string \<Rightarrow> string list" where
  "split_js sep [] = [[]]"
| "split_js sep (c # cs) =
     (if c = sep then [] # split_js sep cs
      else (case split_js sep cs of
              w # ws \<Rightarrow> (c # w) # ws
            | [] \<Rightarrow> [[c]]))"

definition includes_js :: "string list \<Rightarrow> string \<Rightarrow> bool" where
  "includes_js xs x \<longleftrightarrow> x \<in> set xs"


section \<open>Requests and responses\<close>

text \<open>
  A value of \<open>req.query\<close>: a parameter that is absent is \<open>undefined\<close>, one given once is a
  string, one given several times (\<open>defaultkey=a&defaultkey=b\<close>) is an array, and the
  bracket notation gives an object.
\<close>

datatype qvalue =
    Undefined
  | Str string
  | Arr "qvalue list"
  | Obj "(string \<times> qvalue) list"

text \<open>JavaScript truthiness: \<open>undefined\<close> and the empty string are falsy, every array and
  object is truthy.\<close>

fun truthy :: "qvalue \<Rightarrow> bool" where
  "truthy Undefined = False"
| "truthy (Str s) = (s \<noteq> [])"
| "truthy (Arr _) = True"
| "truthy (Obj _) = True"

text \<open>\<open>typeof v === "string"\<close>\<close>

fun isString :: "qvalue \<Rightarrow> bool" where
  "isString (Str _) = True"
| "isString _ = False"

record query =
  input :: qvalue
  validkeys :: qvalue
  notallowedkeys :: qvalue
  defaultkey :: qvalue
  allowednumbers :: qvalue

text \<open>The JSON body \<open>{code, result: [{type, message}]}\<close> with the HTTP status it is sent
  under; the success bodies have no \<open>type\<close> field.\<close>

record item =
  type_field :: "string option"
  message :: string

record response =
  status :: nat
  code :: string
  result :: "item list"

text \<open>\<open>res.status(400).json({code: "400", result: [{type: "text", message: msg}]})\<close>\<close>

definition bad_request :: "string \<Rightarrow> response" where
  "bad_request msg =
     \<lparr>status = 400, code = ''400'',
      result = [\<lparr>type_field = Some ''text'', message = msg\<rparr>]\<rparr>"

text \<open>\<open>res.status(200).json({code: "200", result: [{message: msg}]})\<close>\<close>

definition ok_response :: "string \<Rightarrow> response" where
  "ok_response msg =
     \<lparr>status = 200, code = ''200'',
      result = [\<lparr>type_field = None, message = msg\<rparr>]\<rparr>"

text \<open>
  A handler either sends a response or throws; nothing in the file catches what a handler
  throws, so the framework's error handler answers such a request (status 500).
\<close>

datatype js_error = TypeError


section \<open>The phone number library\<close>

text \<open>
  \<open>parsePhoneNumberFromString\<close> belongs to the library \<open>libphonenumber-js\<close>; the handler
  takes it as a parameter. A call throws, returns \<open>undefined\<close>, or returns a phone number
  with its \<open>isValid()\<close> answer and its \<open>country\<close>, which may be \<open>undefined\<close>.
\<close>

datatype phone = Phone (isValid: bool) (country: "string option")

datatype parse_outcome = Throws | Returns "phone option"

text \<open>A parser for concrete requests: it knows one number of the United States and one of
  Pakistan, and returns \<open>undefined\<close> for every other string.\<close>

definition sample_parser :: "string \<Rightarrow> parse_outcome" where
  "sample_parser s =
     (if s = ''+14155550100'' then Returns (Some (Phone True (Some ''US'')))
      else if s = ''+923001234567'' then Returns (Some (Phone True (Some ''PK'')))
      else Returns None)"


section \<open>GET /resolve/user/input\<close>

text \<open>
  \<open>defaultkey = defaultkey?.trim().toLowerCase() || fallback\<close>. The optional chaining stops
  at \<open>undefined\<close> only: on an array or an object \<open>defaultkey.trim\<close> is \<open>undefined\<close> and
  the call throws a \<open>TypeError\<close>.
\<close>

fun normalizeDefaultkey :: "string \<Rightarrow> qvalue \<Rightarrow> js_error + string" where
  "normalizeDefaultkey fallback Undefined = Inr fallback"
| "normalizeDefaultkey fallback (Str s) =
     (let d = toLowerCase (trim s) in Inr (if d = [] then fallback else d))"
| "normalizeDefaultkey fallback (Arr _) = Inl TypeError"
| "normalizeDefaultkey fallback (Obj _) = Inl TypeError"

text \<open>\<open>!input || typeof input !== "string" || !input.trim()\<close>\<close>

definition missingField :: "qvalue \<Rightarrow> bool" where
  "missingField v \<longleftrightarrow>
     \<not> truthy v \<or> \<not> isString v \<or> (case v of Str s \<Rightarrow> trim s = [] | _ \<Rightarrow> False)"

text \<open>\<open>if (!rawNumber.startsWith("+")) rawNumber = `+${rawNumber}`\<close>\<close>

definition ensurePlus :: "string \<Rightarrow> string" where
  "ensurePlus s = (if startsWith s ''+'' then s else ''+'' @ s)"

text \<open>
  The \<open>try\<close> block of the handler: \<open>country\<close> stays \<open>null\<close> when the parser throws, returns
  nothing, or returns a number that is not valid; otherwise it is
  \<open>phone.country?.toLowerCase() || null\<close>.
\<close>

definition resolveCountry :: "(string \<Rightarrow> parse_outcome) \<Rightarrow> string \<Rightarrow> string option" where
  "resolveCountry parsePhoneNumberFromString rawNumber =
     (case parsePhoneNumberFromString rawNumber of
        Throws \<Rightarrow> None
      | Returns None \<Rightarrow> None
      | Returns (Some p) \<Rightarrow>
          (if isValid p then
             (case country p of
                None \<Rightarrow> None
              | Some c \<Rightarrow> (if toLowerCase c = [] then None else Some (toLowerCase c)))
           else None))"

fun parseKeys :: "qvalue \<Rightarrow> string list" where
  "parseKeys (Str keys) =
     (if keys = [] then []
      else filter (\<lambda>k. length k > 0)
             (map (\<lambda>k. toLowerCase (trim k)) (split_js CHR '','' keys)))"
| "parseKeys _ = []"

text \<open>The priority chain that assigns \<open>resolvedKey\<close>; \<open>country &&\<close> is the test that a
  country was resolved.\<close>

definition resolvedKey :: "string option \<Rightarrow> string list \<Rightarrow> string list \<Rightarrow> string \<Rightarrow> string" where
  "resolvedKey cntry notAllowedArray validKeysArray dk =
     (case cntry of
        None \<Rightarrow> dk
      | Some c \<Rightarrow>
          (if includes_js notAllowedArray c then ''not_@llowed''
           else if includes_js validKeysArray c then c
           else dk))"

definition resolve_user_input ::
  "(string \<Rightarrow> parse_outcome) \<Rightarrow> query \<Rightarrow> js_error + response" where
  "resolve_user_input parsePhoneNumberFromString q =
     (case normalizeDefaultkey ''garbage'' (defaultkey q) of
        Inl e \<Rightarrow> Inl e
      | Inr dk \<Rightarrow>
          if missingField (input q) then
            Inr (bad_request ''Missing required field: input'')
          else if \<not> truthy (validkeys q) \<and> \<not> truthy (notallowedkeys q) then
            Inr (bad_request ''At least one of validkeys or notallowedkeys is required'')
          else
            (case input q of
               Str s \<Rightarrow>
                 (let rawNumber = trim s in
                  if rawNumber = [] then
                    Inr (bad_request ''Invalid input: empty after normalization'')
                  else
                    (let cntry = resolveCountry parsePhoneNumberFromString (ensurePlus rawNumber);
                         notAllowedArray = parseKeys (notallowedkeys q);
                         validKeysArray = parseKeys (validkeys q)
                     in Inr (ok_response
                               (resolvedKey cntry notAllowedArray validKeysArray dk))))
             | _ \<Rightarrow> Inl TypeError))"


section \<open>GET /resolve/number/whitelist\<close>

text \<open>The character class \<open>[\s\-\\()]\<close> of the regular expression.\<close>

definition formattingChar :: "char \<Rightarrow> bool" where
  "formattingChar c \<longleftrightarrow>
     isWhiteSpace c \<or> c = CHR ''-'' \<or> c = CHR 0x5C \<or> c = CHR ''('' \<or> c = CHR '')''"

text \<open>\<open>num.replaceAll(/[\s\-\\()]/g, "")\<close>\<close>

definition removeFormatting :: "string \<Rightarrow> string" where
  "removeFormatting s = filter (\<lambda>c. \<not> formattingChar c) s"

text \<open>\<open>normalizeNumber\<close>; \<open>None\<close> is its \<open>null\<close>.\<close>

fun normalizeNumber :: "qvalue \<Rightarrow> string option" where
  "normalizeNumber (Str num) =
     (if num = [] then None
      else (let normalized = trim (removeFormatting num) in
            if normalized = [] then None
            else Some (if startsWith normalized ''+'' then normalized
                       else ''+'' @ normalized)))"
| "normalizeNumber _ = None"

text \<open>\<open>allowednumbers.split(",").map((n) => normalizeNumber(n)).filter((n) => n !== null)\<close>\<close>

definition allowedArray :: "string \<Rightarrow> string list" where
  "allowedArray s =
     map the (filter (\<lambda>n. n \<noteq> None)
                (map (\<lambda>n. normalizeNumber (Str n)) (split_js CHR '','' s)))"

definition resolve_number_whitelist :: "query \<Rightarrow> js_error + response" where
  "resolve_number_whitelist q =
     (case normalizeDefaultkey ''not_@llowed'' (defaultkey q) of
        Inl e \<Rightarrow> Inl e
      | Inr dk \<Rightarrow>
          if missingField (input q) then
            Inr (bad_request ''Missing required field: input'')
          else if missingField (allowednumbers q) then
            Inr (bad_request ''Missing required field: allowednumbers'')
          else
            (case normalizeNumber (input q) of
               None \<Rightarrow> Inr (bad_request ''Invalid input: empty after normalization'')
             | Some inputNormalized \<Rightarrow>
                 (case allowednumbers q of
                    Str s \<Rightarrow>
                      (if length (allowedArray s) = 0 then
                         Inr (bad_request ''No valid numbers in allowednumbers'')
                       else
                         (let isAllowed = includes_js (allowedArray s) inputNormalized
                          in Inr (ok_response (if isAllowed then ''@llowed'' else dk))))
                  | _ \<Rightarrow> Inl TypeError)))"


section \<open>Letter case of a parameter value\<close>

text \<open>
  Two values of one query parameter that differ in letter case only: two strings with the
  same lower-case form; a value that is not a string has no letter case and is a variant
  of itself only.
\<close>

fun caseVariant :: "qvalue \<Rightarrow> qvalue \<Rightarrow> bool" where
  "caseVariant (Str a) (Str b) = (toLowerCase a = toLowerCase b)"
| "caseVariant v w = (v = w)"


section \<open>Evaluation of the string functions and of validation\<close>

lemmas string_eval =
  trim_def isWhiteSpace_def toLowerCase_def toLowerChar_def upperCaseLetters_def
  lowerCaseLetters_def startsWith_def ensurePlus_def

lemma toLowerCase_Nil_iff: "toLowerCase s = [] \<longleftrightarrow> s = []"
  by (simp add: toLowerCase_def)

lemma missingField_Str: "missingField (Str s) \<longleftrightarrow> trim s = []"
  by (auto simp: missingField_def trim_def)

lemma missingField_other [simp]:
  "missingField Undefined" "missingField (Arr xs)" "missingField (Obj kvs)"
  by (simp_all add: missingField_def)

lemma normalizeDefaultkey_string_or_absent:
  assumes "v = Undefined \<or> isString v"
  shows "normalizeDefaultkey fallback v =
           Inr (case v of
                  Str d \<Rightarrow> if trim d = [] then fallback else toLowerCase (trim d)
                | _ \<Rightarrow> fallback)"
  using assms by (cases v) (simp_all add: Let_def toLowerCase_Nil_iff)


section \<open>The key resolver of GET /resolve/user/input\<close>

text \<open>
  A request passes validation when the handler gets as far as the resolver: the default key
  was normalised, \<open>input\<close> is a string that is not empty after trimming, and one of
  \<open>validkeys\<close> and \<open>notallowedkeys\<close> is truthy. The handler then answers 200 with the
  resolved key.
\<close>

lemma resolve_user_input_valid:
  assumes "input q = Str s" and "trim s \<noteq> []"
    and "truthy (validkeys q) \<or> truthy (notallowedkeys q)"
    and "normalizeDefaultkey ''garbage'' (defaultkey q) = Inr dk"
  shows "resolve_user_input parse q =
           Inr (ok_response
                  (resolvedKey (resolveCountry parse (ensurePlus (trim s)))
                     (parseKeys (notallowedkeys q)) (parseKeys (validkeys q)) dk))"
  using assms by (auto simp: resolve_user_input_def missingField_Str)

lemma resolveCountry_fail:
  assumes "parse n = Throws \<or> parse n = Returns None
           \<or> (\<exists>c. parse n = Returns (Some (Phone False c)))"
  shows "resolveCountry parse n = None"
  using assms by (auto simp: resolveCountry_def)

text \<open>
  C1. For a request that passes validation the response is the 200 response with one token,
  chosen in this order: the blocked marker when a country was resolved and is in the
  blocked set, also when it is in the allowed set as well; otherwise the country code when
  it is in the allowed set; otherwise the default key.
\<close>

theorem resolve_user_input_priority:
  assumes "input q = Str s" and "trim s \<noteq> []"
    and "truthy (validkeys q) \<or> truthy (notallowedkeys q)"
    and "normalizeDefaultkey ''garbage'' (defaultkey q) = Inr dk"
  shows "resolve_user_input parse q =
           Inr (ok_response
                  (case resolveCountry parse (ensurePlus (trim s)) of
                     None \<Rightarrow> dk
                   | Some c \<Rightarrow>
                       if c \<in> set (parseKeys (notallowedkeys q)) then ''not_@llowed''
                       else if c \<in> set (parseKeys (validkeys q)) then c
                       else dk))"
  using resolve_user_input_valid [OF assms, of parse]
  by (simp add: resolvedKey_def includes_js_def split: option.splits)

theorem resolve_user_input_priority_witness:
  "trim ''+923001234567'' \<noteq> []
   \<and> normalizeDefaultkey ''garbage'' Undefined = Inr ''garbage''
   \<and> resolve_user_input sample_parser
        \<lparr>input = Str ''+923001234567'', validkeys = Str ''PK, us'',
         notallowedkeys = Str ''pk'', defaultkey = Undefined,
         allowednumbers = Undefined\<rparr>
      = Inr (ok_response ''not_@llowed'')"
  using resolve_user_input_priority
    [of "\<lparr>input = Str ''+923001234567'', validkeys = Str ''PK, us'',
          notallowedkeys = Str ''pk'', defaultkey = Undefined,
          allowednumbers = Undefined\<rparr>"
        "''+923001234567''" "''garbage''" sample_parser]
  by (simp add: string_eval resolveCountry_def sample_parser_def)

text \<open>
  C2. For a request that passes validation, when the parser throws, returns nothing or
  returns a number that is not valid, or when the resolved country is in neither key set,
  the message is the caller's \<open>defaultkey\<close> trimmed and lowercased, and it is
  \<open>"garbage"\<close> when \<open>defaultkey\<close> is absent or empty after trimming.
\<close>

theorem no_match_gives_default_key:
  assumes "input q = Str s" and "trim s \<noteq> []"
    and "truthy (validkeys q) \<or> truthy (notallowedkeys q)"
    and "defaultkey q = Undefined \<or> isString (defaultkey q)"
    and "parse (ensurePlus (trim s)) = Throws
         \<or> parse (ensurePlus (trim s)) = Returns None
         \<or> (\<exists>c. parse (ensurePlus (trim s)) = Returns (Some (Phone False c)))
         \<or> (\<exists>c. resolveCountry parse (ensurePlus (trim s)) = Some c
                \<and> c \<notin> set (parseKeys (notallowedkeys q))
                \<and> c \<notin> set (parseKeys (validkeys q)))"
  shows "resolve_user_input parse q =
           Inr (ok_response
                  (case defaultkey q of
                     Str d \<Rightarrow> if trim d = [] then ''garbage'' else toLowerCase (trim d)
                   | _ \<Rightarrow> ''garbage''))"
proof -
  let ?c = "resolveCountry parse (ensurePlus (trim s))"
  from assms(5) have "?c = None \<or> (\<exists>c. ?c = Some c
                \<and> c \<notin> set (parseKeys (notallowedkeys q))
                \<and> c \<notin> set (parseKeys (validkeys q)))"
    using resolveCountry_fail [of parse "ensurePlus (trim s)"] by blast
  then show ?thesis
    using resolve_user_input_valid
      [OF assms(1-3) normalizeDefaultkey_string_or_absent [OF assms(4)], of parse]
    by (auto simp: resolvedKey_def includes_js_def)
qed

theorem no_match_gives_default_key_witness:
  "trim ''notanumber'' \<noteq> []
   \<and> sample_parser (ensurePlus (trim ''notanumber'')) = Returns None
   \<and> resolve_user_input sample_parser
        \<lparr>input = Str ''notanumber'', validkeys = Str ''us'', notallowedkeys = Undefined,
         defaultkey = Str '' XX '', allowednumbers = Undefined\<rparr>
      = Inr (ok_response ''xx'')"
  using no_match_gives_default_key
    [of "\<lparr>input = Str ''notanumber'', validkeys = Str ''us'', notallowedkeys = Undefined,
          defaultkey = Str '' XX '', allowednumbers = Undefined\<rparr>"
        "''notanumber''" sample_parser]
  by (simp add: string_eval sample_parser_def)


section \<open>A repeated \<open>defaultkey\<close> parameter\<close>

text \<open>
  The handler normalises \<open>defaultkey\<close> before it validates anything, and unlike \<open>input\<close>
  and the key lists it does not test that the value is a string. A query string that
  gives \<open>defaultkey\<close> twice makes it an array, and the handler throws.
\<close>

text \<open>
  C4, at the request \<open>?input=%2B14155550100&validkeys=us&defaultkey=a&defaultkey=b\<close>:
  the handler throws a \<open>TypeError\<close>; it sends neither the 200 nor a 400 response.
\<close>

theorem repeated_defaultkey_throws:
  "resolve_user_input sample_parser
     \<lparr>input = Str ''+14155550100'', validkeys = Str ''us'', notallowedkeys = Undefined,
      defaultkey = Arr [Str ''a'', Str ''b''], allowednumbers = Undefined\<rparr>
   = Inl TypeError"
  by (simp add: resolve_user_input_def)

text \<open>
  C5, at the request \<open>?validkeys=us&defaultkey=a&defaultkey=b\<close>, which has no \<open>input\<close>:
  the handler throws a \<open>TypeError\<close> before it tests \<open>input\<close>; it does not send the 400
  response \<open>Missing required field: input\<close>.
\<close>

theorem missing_input_repeated_defaultkey_throws:
  "resolve_user_input sample_parser
     \<lparr>input = Undefined, validkeys = Str ''us'', notallowedkeys = Undefined,
      defaultkey = Arr [Str ''a'', Str ''b''], allowednumbers = Undefined\<rparr>
   = Inl TypeError"
  by (simp add: resolve_user_input_def)

text \<open>With a \<open>defaultkey\<close> that is absent or a string, a missing \<open>input\<close> is answered by
  the 400 response, whatever the other parameters are.\<close>

theorem missing_input_rejected:
  assumes "missingField (input q)" and "defaultkey q = Undefined \<or> isString (defaultkey q)"
  shows "resolve_user_input parse q = Inr (bad_request ''Missing required field: input'')"
  using assms(1) normalizeDefaultkey_string_or_absent [OF assms(2), of "''garbage''"]
  by (simp add: resolve_user_input_def)

theorem missing_input_rejected_witness:
  "missingField (Str ''  '')
   \<and> resolve_user_input sample_parser
        \<lparr>input = Str ''  '', validkeys = Str ''us'', notallowedkeys = Undefined,
         defaultkey = Undefined, allowednumbers = Undefined\<rparr>
      = Inr (bad_request ''Missing required field: input'')"
proof -
  have m: "missingField (Str ''  '')"
    by (simp add: missingField_Str string_eval)
  with missing_input_rejected
    [of "\<lparr>input = Str ''  '', validkeys = Str ''us'', notallowedkeys = Undefined,
         defaultkey = Undefined, allowednumbers = Undefined\<rparr>" sample_parser]
  show ?thesis by simp
qed

text \<open>With a \<open>defaultkey\<close> that is absent or a string the handler never throws,
  whatever the parser does: it sends the 200 response or a 400 response.\<close>

theorem string_defaultkey_never_throws:
  assumes "defaultkey q = Undefined \<or> isString (defaultkey q)"
  shows "\<exists>r. resolve_user_input parse q = Inr r \<and> (status r = 200 \<or> status r = 400)"
proof (cases "missingField (input q)")
  case True
  with normalizeDefaultkey_string_or_absent [OF assms, of "''garbage''"]
  show ?thesis by (simp add: resolve_user_input_def bad_request_def)
next
  case False
  then obtain s where s: "input q = Str s" "trim s \<noteq> []"
    by (cases "input q") (simp_all add: missingField_Str)
  show ?thesis
  proof (cases "truthy (validkeys q) \<or> truthy (notallowedkeys q)")
    case True
    from resolve_user_input_valid
      [OF s True normalizeDefaultkey_string_or_absent [OF assms], of parse]
    show ?thesis by (simp add: ok_response_def)
  next
    case False
    with \<open>\<not> missingField (input q)\<close>
      normalizeDefaultkey_string_or_absent [OF assms, of "''garbage''"]
    show ?thesis by (simp add: resolve_user_input_def bad_request_def)
  qed
qed

theorem string_defaultkey_never_throws_witness:
  "\<exists>r. resolve_user_input sample_parser
         \<lparr>input = Str ''notanumber'', validkeys = Str ''us'', notallowedkeys = Undefined,
          defaultkey = Str ''xx'', allowednumbers = Undefined\<rparr> = Inr r
       \<and> (status r = 200 \<or> status r = 400)"
  using string_defaultkey_never_throws
    [of "\<lparr>input = Str ''notanumber'', validkeys = Str ''us'', notallowedkeys = Undefined,
          defaultkey = Str ''xx'', allowednumbers = Undefined\<rparr>" sample_parser]
  by simp


section \<open>Trimming, splitting and number normalisation\<close>

lemma dropWhile_Nil_iff: "dropWhile P xs = [] \<longleftrightarrow> (\<forall>x\<in>set xs. P x)"
  by (induction xs) auto

lemma dropWhile_all_iff:
  "(\<forall>x\<in>set (dropWhile P xs). P x) \<longleftrightarrow> (\<forall>x\<in>set xs. P x)"
  by (induction xs) auto

lemma trim_Nil_iff: "trim s = [] \<longleftrightarrow> (\<forall>c\<in>set s. isWhiteSpace c)"
  by (simp add: trim_def dropWhile_Nil_iff dropWhile_all_iff)

lemma dropWhile_head_kept:
  assumes "\<forall>c\<in>set xs. \<not> P c"
  shows "dropWhile P xs = xs"
  using assms by (cases xs) simp_all

lemma trim_without_white_space:
  assumes "\<forall>c\<in>set s. \<not> isWhiteSpace c"
  shows "trim s = s"
  using assms by (simp add: trim_def dropWhile_head_kept)

lemma removeFormatting_no_white_space:
  "c \<in> set (removeFormatting s) \<Longrightarrow> \<not> isWhiteSpace c"
  unfolding removeFormatting_def formattingChar_def by simp

lemma trim_removeFormatting: "trim (removeFormatting s) = removeFormatting s"
  by (rule trim_without_white_space) (blast dest: removeFormatting_no_white_space)

lemma normalizeNumber_Str:
  "normalizeNumber (Str s) =
     (if removeFormatting s = [] then None else Some (ensurePlus (removeFormatting s)))"
proof (cases "s = []")
  case True
  then show ?thesis by (simp add: removeFormatting_def)
next
  case False
  then show ?thesis by (simp add: trim_removeFormatting ensurePlus_def Let_def)
qed

lemma normalizeNumber_Some_not_blank:
  assumes "normalizeNumber (Str s) = Some n"
  shows "trim s \<noteq> []"
proof -
  from assms have "removeFormatting s \<noteq> []"
    unfolding normalizeNumber_Str by (simp split: if_splits)
  then obtain c where c: "c \<in> set s" "\<not> formattingChar c"
    unfolding removeFormatting_def filter_empty_conv by blast
  then have "\<not> isWhiteSpace c" by (simp add: formattingChar_def)
  with c(1) show ?thesis unfolding trim_Nil_iff by blast
qed

lemma split_js_not_Nil: "split_js sep s \<noteq> []"
  by (induction s) (simp_all split: list.splits)

lemma split_js_chars:
  "seg \<in> set (split_js sep s) \<Longrightarrow> set seg \<subseteq> set s"
proof (induction s arbitrary: seg)
  case Nil
  then show ?case by simp
next
  case (Cons c cs)
  show ?case
  proof (cases "c = sep")
    case True
    with Cons.prems have "seg = [] \<or> seg \<in> set (split_js sep cs)" by simp
    then show ?thesis using Cons.IH [of seg] by auto
  next
    case False
    obtain w ws where ws: "split_js sep cs = w # ws"
      using split_js_not_Nil [of sep cs] by (cases "split_js sep cs") simp_all
    with False Cons.prems have "seg = c # w \<or> seg \<in> set ws" by simp
    then show ?thesis
      using Cons.IH [of w] Cons.IH [of seg] ws by auto
  qed
qed

text \<open>From here on \<open>normalizeNumber\<close> is unfolded through \<open>normalizeNumber_Str\<close> only.\<close>

declare normalizeNumber.simps(1) [simp del]

lemma set_allowedArray:
  "set (allowedArray a) =
     {n. \<exists>seg\<in>set (split_js CHR '','' a). normalizeNumber (Str seg) = Some n}"
proof -
  have "set (map the (filter (\<lambda>n. n \<noteq> None) xs)) = {n. Some n \<in> set xs}"
    for xs :: "string option list"
    by (induction xs) auto
  then have "set (allowedArray a) =
     {n. Some n \<in> set (map (\<lambda>n. normalizeNumber (Str n)) (split_js CHR '','' a))}"
    unfolding allowedArray_def by blast
  also have "\<dots> = {n. \<exists>seg\<in>set (split_js CHR '','' a). normalizeNumber (Str seg) = Some n}"
    by (auto simp: image_iff) (metis)+
  finally show ?thesis .
qed

lemma allowedArray_Nil_iff:
  "allowedArray a = [] \<longleftrightarrow>
     (\<forall>seg\<in>set (split_js CHR '','' a). normalizeNumber (Str seg) = None)"
  unfolding allowedArray_def by (simp add: filter_empty_conv)

lemma allowedArray_not_blank:
  assumes "allowedArray a \<noteq> []"
  shows "trim a \<noteq> []"
proof -
  from assms obtain seg n where seg: "seg \<in> set (split_js CHR '','' a)"
    and n: "normalizeNumber (Str seg) = Some n"
    unfolding allowedArray_Nil_iff by auto
  from n have "trim seg \<noteq> []" by (rule normalizeNumber_Some_not_blank)
  then obtain c where "c \<in> set seg" "\<not> isWhiteSpace c"
    unfolding trim_Nil_iff by blast
  with split_js_chars [OF seg] show ?thesis
    unfolding trim_Nil_iff by blast
qed

lemma resolve_number_whitelist_valid:
  assumes "input q = Str i" and "normalizeNumber (Str i) = Some n"
    and "allowednumbers q = Str a" and "allowedArray a \<noteq> []"
    and "normalizeDefaultkey ''not_@llowed'' (defaultkey q) = Inr dk"
  shows "resolve_number_whitelist q =
           Inr (ok_response (if n \<in> set (allowedArray a) then ''@llowed'' else dk))"
  using assms normalizeNumber_Some_not_blank [OF assms(2)] allowedArray_not_blank [OF assms(4)]
  by (simp add: resolve_number_whitelist_def missingField_Str includes_js_def)

lemmas number_eval =
  normalizeNumber_Str removeFormatting_def formattingChar_def


section \<open>Membership in the whitelist\<close>

text \<open>
  C3. The normalised form of a candidate is the candidate without white space, hyphens,
  backslashes and parentheses, with \<open>+\<close> put in front unless it starts with one (a
  candidate with nothing left has no normalised form). For a request that gets as far as
  the membership test, the response is the allowed marker exactly when the normalised form
  of \<open>input\<close> is the normalised form of one of the comma-separated pieces of
  \<open>allowednumbers\<close>, and the default key otherwise. \<open>+1 (415) 555-0100\<close> and
  \<open>14155550100\<close> have the same normalised form, and each is whitelisted by the other.
\<close>

theorem whitelist_membership:
  "(\<forall>s. normalizeNumber (Str s) =
          (let t = filter (\<lambda>c. \<not> isWhiteSpace c \<and> c \<noteq> CHR ''-'' \<and> c \<noteq> CHR 0x5C
                              \<and> c \<noteq> CHR ''('' \<and> c \<noteq> CHR '')'') s
           in if t = [] then None
              else Some (if hd t = CHR ''+'' then t else CHR ''+'' # t)))
   \<and> (\<forall>q i n a dk.
          input q = Str i \<and> normalizeNumber (Str i) = Some n
          \<and> allowednumbers q = Str a \<and> allowedArray a \<noteq> []
          \<and> normalizeDefaultkey ''not_@llowed'' (defaultkey q) = Inr dk
          \<longrightarrow> resolve_number_whitelist q =
                Inr (ok_response
                       (if \<exists>seg\<in>set (split_js CHR '','' a). normalizeNumber (Str seg) = Some n
                        then ''@llowed'' else dk)))
   \<and> normalizeNumber (Str ''+1 (415) 555-0100'') = Some ''+14155550100''
   \<and> normalizeNumber (Str ''14155550100'') = Some ''+14155550100''
   \<and> resolve_number_whitelist
        \<lparr>input = Str ''+1 (415) 555-0100'', validkeys = Undefined, notallowedkeys = Undefined,
         defaultkey = Undefined, allowednumbers = Str ''14155550100''\<rparr>
      = Inr (ok_response ''@llowed'')
   \<and> resolve_number_whitelist
        \<lparr>input = Str ''14155550100'', validkeys = Undefined, notallowedkeys = Undefined,
         defaultkey = Undefined, allowednumbers = Str ''+1 (415) 555-0100''\<rparr>
      = Inr (ok_response ''@llowed'')"
proof (intro conjI allI impI)
  fix s
  have "filter (\<lambda>c. \<not> isWhiteSpace c \<and> c \<noteq> CHR ''-'' \<and> c \<noteq> CHR 0x5C
                              \<and> c \<noteq> CHR ''('' \<and> c \<noteq> CHR '')'') s = removeFormatting s"
    by (simp add: removeFormatting_def formattingChar_def)
  moreover have "startsWith t ''+'' \<longleftrightarrow> hd t = CHR ''+''" if "t \<noteq> []" for t
    using that by (cases t) (simp_all add: startsWith_def)
  ultimately show "normalizeNumber (Str s) =
          (let t = filter (\<lambda>c. \<not> isWhiteSpace c \<and> c \<noteq> CHR ''-'' \<and> c \<noteq> CHR 0x5C
                              \<and> c \<noteq> CHR ''('' \<and> c \<noteq> CHR '')'') s
           in if t = [] then None
              else Some (if hd t = CHR ''+'' then t else CHR ''+'' # t))"
    by (simp add: normalizeNumber_Str ensurePlus_def Let_def)
next
  fix q :: query and i n a dk
  assume "input q = Str i \<and> normalizeNumber (Str i) = Some n
          \<and> allowednumbers q = Str a \<and> allowedArray a \<noteq> []
          \<and> normalizeDefaultkey ''not_@llowed'' (defaultkey q) = Inr dk"
  then have "resolve_number_whitelist q =
           Inr (ok_response (if n \<in> set (allowedArray a) then ''@llowed'' else dk))"
    using resolve_number_whitelist_valid [of q i n a dk] by blast
  then show "resolve_number_whitelist q =
                Inr (ok_response
                       (if \<exists>seg\<in>set (split_js CHR '','' a). normalizeNumber (Str seg) = Some n
                        then ''@llowed'' else dk))"
    unfolding set_allowedArray by simp
next
  show "normalizeNumber (Str ''+1 (415) 555-0100'') = Some ''+14155550100''"
    by (simp add: number_eval string_eval)
next
  show "normalizeNumber (Str ''14155550100'') = Some ''+14155550100''"
    by (simp add: number_eval string_eval)
next
  show "resolve_number_whitelist
        \<lparr>input = Str ''+1 (415) 555-0100'', validkeys = Undefined, notallowedkeys = Undefined,
         defaultkey = Undefined, allowednumbers = Str ''14155550100''\<rparr>
      = Inr (ok_response ''@llowed'')"
    by (simp add: resolve_number_whitelist_def missingField_Str includes_js_def
          allowedArray_def number_eval string_eval)
next
  show "resolve_number_whitelist
        \<lparr>input = Str ''14155550100'', validkeys = Undefined, notallowedkeys = Undefined,
         defaultkey = Undefined, allowednumbers = Str ''+1 (415) 555-0100''\<rparr>
      = Inr (ok_response ''@llowed'')"
    by (simp add: resolve_number_whitelist_def missingField_Str includes_js_def
          allowedArray_def number_eval string_eval)
qed

theorem whitelist_membership_witness:
  "normalizeNumber (Str ''+1 415-555-0100'') = Some ''+14155550100''
   \<and> allowedArray ''+923001234567, (1) 415 555 0100'' \<noteq> []
   \<and> resolve_number_whitelist
        \<lparr>input = Str ''+1 415-555-0100'', validkeys = Undefined, notallowedkeys = Undefined,
         defaultkey = Str ''no'', allowednumbers = Str ''+923001234567, (1) 415 555 0100''\<rparr>
      = Inr (ok_response ''@llowed'')"
proof -
  let ?q = "\<lparr>input = Str ''+1 415-555-0100'', validkeys = Undefined,
             notallowedkeys = Undefined, defaultkey = Str ''no'',
             allowednumbers = Str ''+923001234567, (1) 415 555 0100''\<rparr>"
  have n: "normalizeNumber (Str ''+1 415-555-0100'') = Some ''+14155550100''"
    by (simp add: number_eval string_eval)
  have a: "allowedArray ''+923001234567, (1) 415 555 0100'' = [''+923001234567'', ''+14155550100'']"
    by (simp add: allowedArray_def number_eval string_eval)
  have s: "split_js CHR '','' ''+923001234567, (1) 415 555 0100''
             = [''+923001234567'', '' (1) 415 555 0100'']"
    by simp
  have d: "normalizeDefaultkey ''not_@llowed'' (Str ''no'') = Inr ''no''"
    by (simp add: string_eval)
  from whitelist_membership
  have "input ?q = Str ''+1 415-555-0100''
          \<and> normalizeNumber (Str ''+1 415-555-0100'') = Some ''+14155550100''
          \<and> allowednumbers ?q = Str ''+923001234567, (1) 415 555 0100''
          \<and> allowedArray ''+923001234567, (1) 415 555 0100'' \<noteq> []
          \<and> normalizeDefaultkey ''not_@llowed'' (defaultkey ?q) = Inr ''no''
          \<longrightarrow> resolve_number_whitelist ?q =
                Inr (ok_response
                       (if \<exists>seg\<in>set (split_js CHR '','' ''+923001234567, (1) 415 555 0100'').
                             normalizeNumber (Str seg) = Some ''+14155550100''
                        then ''@llowed'' else ''no''))"
    by blast
  then show ?thesis
    using n a d unfolding s by (simp add: number_eval string_eval)
qed


section \<open>The \<open>whatsapp:\<close> prefix\<close>

lemma removeFormatting_whatsapp:
  "removeFormatting (''whatsapp:'' @ n) = ''whatsapp:'' @ removeFormatting n"
  by (simp add: removeFormatting_def formattingChar_def isWhiteSpace_def)

lemma normalizeNumber_whatsapp:
  "normalizeNumber (Str (''whatsapp:'' @ n)) = Some (''+whatsapp:'' @ removeFormatting n)"
  unfolding normalizeNumber_Str removeFormatting_whatsapp
  by (simp add: ensurePlus_def startsWith_def)

lemma length_ensurePlus: "length (ensurePlus s) \<le> Suc (length s)"
  by (simp add: ensurePlus_def)

lemma ensurePlus_whatsapp:
  assumes "ensurePlus t = ''+whatsapp:'' @ r"
  shows "startsWith t ''whatsapp:'' \<or> startsWith t ''+whatsapp:''"
proof (cases "startsWith t ''+''")
  case True
  with assms have "t = ''+whatsapp:'' @ r" by (simp add: ensurePlus_def)
  then show ?thesis by (simp add: startsWith_def)
next
  case False
  with assms have "t = ''whatsapp:'' @ r" by (simp add: ensurePlus_def)
  then show ?thesis by (simp add: startsWith_def)
qed

text \<open>
  C10. Normalisation keeps a \<open>whatsapp:\<close> prefix: the normalised form of
  \<open>whatsapp:\<close> followed by a number is \<open>+whatsapp:\<close> followed by that number (without
  its formatting characters, as for every candidate). It is never the normalised form of
  the number alone, and against allowed numbers that, formatting characters apart, begin
  with neither \<open>whatsapp:\<close> nor \<open>+whatsapp:\<close> the membership test fails: the response
  carries the default key.
\<close>

theorem channel_prefix_not_stripped:
  "(\<forall>n. normalizeNumber (Str (''whatsapp:'' @ n)) = Some (''+whatsapp:'' @ removeFormatting n))
   \<and> (\<forall>n. normalizeNumber (Str (''whatsapp:'' @ n)) \<noteq> normalizeNumber (Str n))
   \<and> (\<forall>q n a dk.
          input q = Str (''whatsapp:'' @ n)
          \<and> allowednumbers q = Str a \<and> allowedArray a \<noteq> []
          \<and> normalizeDefaultkey ''not_@llowed'' (defaultkey q) = Inr dk
          \<and> (\<forall>seg\<in>set (split_js CHR '','' a).
                 \<not> startsWith (removeFormatting seg) ''whatsapp:''
                 \<and> \<not> startsWith (removeFormatting seg) ''+whatsapp:'')
          \<longrightarrow> resolve_number_whitelist q = Inr (ok_response dk))"
proof (intro conjI allI impI)
  fix n
  show "normalizeNumber (Str (''whatsapp:'' @ n)) = Some (''+whatsapp:'' @ removeFormatting n)"
    by (rule normalizeNumber_whatsapp)
next
  fix n
  have "length (ensurePlus (removeFormatting n)) < length (''+whatsapp:'' @ removeFormatting n)"
    using length_ensurePlus [of "removeFormatting n"] by simp
  then have "ensurePlus (removeFormatting n) \<noteq> ''+whatsapp:'' @ removeFormatting n"
    by (metis less_irrefl)
  then show "normalizeNumber (Str (''whatsapp:'' @ n)) \<noteq> normalizeNumber (Str n)"
    unfolding normalizeNumber_whatsapp unfolding normalizeNumber_Str by simp
next
  fix q :: query and n a dk
  assume h: "input q = Str (''whatsapp:'' @ n)
          \<and> allowednumbers q = Str a \<and> allowedArray a \<noteq> []
          \<and> normalizeDefaultkey ''not_@llowed'' (defaultkey q) = Inr dk
          \<and> (\<forall>seg\<in>set (split_js CHR '','' a).
                 \<not> startsWith (removeFormatting seg) ''whatsapp:''
                 \<and> \<not> startsWith (removeFormatting seg) ''+whatsapp:'')"
  have "''+whatsapp:'' @ removeFormatting n \<notin> set (allowedArray a)"
  proof
    assume "''+whatsapp:'' @ removeFormatting n \<in> set (allowedArray a)"
    then obtain seg where seg: "seg \<in> set (split_js CHR '','' a)"
      and "normalizeNumber (Str seg) = Some (''+whatsapp:'' @ removeFormatting n)"
      unfolding set_allowedArray by blast
    then have "ensurePlus (removeFormatting seg) = ''+whatsapp:'' @ removeFormatting n"
      unfolding normalizeNumber_Str by (simp split: if_splits)
    from ensurePlus_whatsapp [OF this] seg h show False by blast
  qed
  then show "resolve_number_whitelist q = Inr (ok_response dk)"
    using resolve_number_whitelist_valid
      [of q "''whatsapp:'' @ n" "''+whatsapp:'' @ removeFormatting n" a dk] h
      normalizeNumber_whatsapp [of n]
    by simp
qed

theorem channel_prefix_not_stripped_witness:
  "normalizeNumber (Str ''whatsapp:+1 415 555 0100'') = Some ''+whatsapp:+14155550100''
   \<and> normalizeNumber (Str ''+1 415 555 0100'') = Some ''+14155550100''
   \<and> allowedArray ''+1 415 555 0100'' \<noteq> []
   \<and> resolve_number_whitelist
        \<lparr>input = Str ''whatsapp:+1 415 555 0100'', validkeys = Undefined,
         notallowedkeys = Undefined, defaultkey = Undefined,
         allowednumbers = Str ''+1 415 555 0100''\<rparr>
      = Inr (ok_response ''not_@llowed'')"
proof -
  let ?q = "\<lparr>input = Str ''whatsapp:+1 415 555 0100'', validkeys = Undefined,
         notallowedkeys = Undefined, defaultkey = Undefined,
         allowednumbers = Str ''+1 415 555 0100''\<rparr>"
  have r: "removeFormatting ''+1 415 555 0100'' = ''+14155550100''"
    by (simp add: number_eval string_eval)
  have a: "allowedArray ''+1 415 555 0100'' = [''+14155550100'']"
    by (simp add: allowedArray_def number_eval string_eval)
  have s: "split_js CHR '','' ''+1 415 555 0100'' = [''+1 415 555 0100'']"
    by simp
  from channel_prefix_not_stripped
  have 1: "normalizeNumber (Str (''whatsapp:'' @ ''+1 415 555 0100''))
             = Some (''+whatsapp:'' @ removeFormatting ''+1 415 555 0100'')"
    by blast
  from channel_prefix_not_stripped
  have "input ?q = Str (''whatsapp:'' @ ''+1 415 555 0100'')
          \<and> allowednumbers ?q = Str ''+1 415 555 0100''
          \<and> allowedArray ''+1 415 555 0100'' \<noteq> []
          \<and> normalizeDefaultkey ''not_@llowed'' (defaultkey ?q) = Inr ''not_@llowed''
          \<and> (\<forall>seg\<in>set (split_js CHR '','' ''+1 415 555 0100'').
                 \<not> startsWith (removeFormatting seg) ''whatsapp:''
                 \<and> \<not> startsWith (removeFormatting seg) ''+whatsapp:'')
          \<longrightarrow> resolve_number_whitelist ?q = Inr (ok_response ''not_@llowed'')"
    by blast
  then have 3: "resolve_number_whitelist ?q = Inr (ok_response ''not_@llowed'')"
    unfolding s using a r by (simp add: startsWith_def)
  have 2: "normalizeNumber (Str ''+1 415 555 0100'') = Some ''+14155550100''"
    by (simp add: number_eval string_eval)
  from 1 2 3 a show ?thesis by (simp add: r)
qed


section \<open>An allowed set that is empty\<close>

text \<open>
  A blank \<open>allowednumbers\<close> yields the empty set, and the handler rejects it as a missing
  field, not with the message for a list without valid numbers.
\<close>

theorem blank_allowednumbers_is_missing_field:
  "allowedArray '' '' = []
   \<and> resolve_number_whitelist
        \<lparr>input = Str ''+14155550100'', validkeys = Undefined, notallowedkeys = Undefined,
         defaultkey = Undefined, allowednumbers = Str '' ''\<rparr>
      = Inr (bad_request ''Missing required field: allowednumbers'')
   \<and> bad_request ''Missing required field: allowednumbers''
      \<noteq> bad_request ''No valid numbers in allowednumbers''"
  by (simp add: resolve_number_whitelist_def missingField_Str allowedArray_def
        number_eval string_eval bad_request_def)

text \<open>
  C7, amended. When \<open>defaultkey\<close> is absent or a string and the \<open>allowednumbers\<close>
  string yields the empty set, the response is a 400 response and never a resolution
  result. Its message is that of the first check that fails: a missing \<open>input\<close>, a blank
  \<open>allowednumbers\<close>, an \<open>input\<close> without a normalised form, and only then
  \<open>No valid numbers in allowednumbers\<close>.
\<close>

theorem empty_allowed_set_rejected:
  assumes "allowednumbers q = Str a" and "allowedArray a = []"
    and "defaultkey q = Undefined \<or> isString (defaultkey q)"
  shows "resolve_number_whitelist q =
           Inr (bad_request
                  (if missingField (input q) then ''Missing required field: input''
                   else if trim a = [] then ''Missing required field: allowednumbers''
                   else if normalizeNumber (input q) = None
                     then ''Invalid input: empty after normalization''
                   else ''No valid numbers in allowednumbers''))"
  using assms(1,2) normalizeDefaultkey_string_or_absent [OF assms(3), of "''not_@llowed''"]
  by (simp add: resolve_number_whitelist_def missingField_Str split: option.splits)

theorem empty_allowed_set_rejected_witness:
  "allowedArray '',()'' = []
   \<and> resolve_number_whitelist
        \<lparr>input = Str ''+14155550100'', validkeys = Undefined, notallowedkeys = Undefined,
         defaultkey = Undefined, allowednumbers = Str '',()''\<rparr>
      = Inr (bad_request ''No valid numbers in allowednumbers'')"
proof -
  have a: "allowedArray '',()'' = []"
    by (simp add: allowedArray_def number_eval string_eval)
  show ?thesis
    using empty_allowed_set_rejected
      [of "\<lparr>input = Str ''+14155550100'', validkeys = Undefined, notallowedkeys = Undefined,
         defaultkey = Undefined, allowednumbers = Str '',()''\<rparr>" "'',()''"] a
    by (simp add: missingField_Str number_eval string_eval)
qed

section \<open>The default key of the whitelist endpoint\<close>

text \<open>A request without \<open>defaultkey\<close> is answered with status 200.\<close>

theorem absent_defaultkey_succeeds:
  "resolve_number_whitelist
     \<lparr>input = Str ''+14155550100'', validkeys = Undefined, notallowedkeys = Undefined,
      defaultkey = Undefined, allowednumbers = Str ''+923001234567''\<rparr>
   = Inr (ok_response ''not_@llowed'')
   \<and> status (ok_response ''not_@llowed'') = 200"
  by (simp add: resolve_number_whitelist_def missingField_Str allowedArray_def
        number_eval string_eval includes_js_def ok_response_def)

lemma normalizeDefaultkey_fallback:
  "normalizeDefaultkey ''not_@llowed'' (Str ''not_@llowed'') = Inr ''not_@llowed''"
  by (simp add: string_eval)

text \<open>
  C8, amended. A \<open>defaultkey\<close> that is absent or empty after trimming does not fail the
  request: the handler answers as it does for \<open>defaultkey=not_@llowed\<close>. The \<open>input\<close>
  is required: without it the response is the 400 response
  \<open>Missing required field: input\<close>.
\<close>

theorem absent_defaultkey_falls_back:
  assumes "defaultkey q = Undefined \<or> (\<exists>d. defaultkey q = Str d \<and> trim d = [])"
  shows "resolve_number_whitelist q
           = resolve_number_whitelist (q\<lparr>defaultkey := Str ''not_@llowed''\<rparr>)
         \<and> (missingField (input q) \<longrightarrow>
              resolve_number_whitelist q = Inr (bad_request ''Missing required field: input''))"
proof -
  from assms have "normalizeDefaultkey ''not_@llowed'' (defaultkey q) = Inr ''not_@llowed''"
    by (auto simp: Let_def toLowerCase_def)
  then show ?thesis
    by (simp add: resolve_number_whitelist_def normalizeDefaultkey_fallback
          del: normalizeDefaultkey.simps split: option.splits)
qed

theorem absent_defaultkey_falls_back_witness:
  "trim ''  '' = []
   \<and> resolve_number_whitelist
        \<lparr>input = Str ''+14155550100'', validkeys = Undefined, notallowedkeys = Undefined,
         defaultkey = Str ''  '', allowednumbers = Str ''+923001234567''\<rparr>
      = Inr (ok_response ''not_@llowed'')"
proof -
  have t: "trim ''  '' = []" by (simp add: string_eval)
  have "resolve_number_whitelist
        \<lparr>input = Str ''+14155550100'', validkeys = Undefined, notallowedkeys = Undefined,
         defaultkey = Str ''not_@llowed'', allowednumbers = Str ''+923001234567''\<rparr>
      = Inr (ok_response ''not_@llowed'')"
    by (simp add: resolve_number_whitelist_def missingField_Str allowedArray_def
        number_eval string_eval includes_js_def)
  with t show ?thesis
    using absent_defaultkey_falls_back
      [of "\<lparr>input = Str ''+14155550100'', validkeys = Undefined, notallowedkeys = Undefined,
         defaultkey = Str ''  '', allowednumbers = Str ''+923001234567''\<rparr>"]
    by simp
qed


section \<open>The key sets the resolver runs with\<close>

lemma parseKeys_nonempty_iff:
  "parseKeys v \<noteq> [] \<longleftrightarrow>
     (\<exists>keys. v = Str keys \<and> (\<exists>seg\<in>set (split_js CHR '','' keys). trim seg \<noteq> []))"
proof (cases v)
  case (Str keys)
  show ?thesis
  proof (cases "keys = []")
    case True
    with Str show ?thesis by (simp add: trim_def)
  next
    case False
    with Str show ?thesis
      by (auto simp: filter_empty_conv toLowerCase_Nil_iff)
  qed
qed simp_all

text \<open>
  The request \<open>?input=%2B14155550100&validkeys=,\<close> passes validation, since \<open>validkeys\<close>
  is a string that is not empty, and the resolver runs with both parsed key sets empty.
\<close>

theorem validkeys_of_commas_only:
  "truthy (Str '','')
   \<and> parseKeys (Str '','') = [] \<and> parseKeys Undefined = []
   \<and> resolve_user_input sample_parser
        \<lparr>input = Str ''+14155550100'', validkeys = Str '','', notallowedkeys = Undefined,
         defaultkey = Undefined, allowednumbers = Undefined\<rparr>
      = Inr (ok_response ''garbage'')"
  by (simp add: resolve_user_input_def missingField_Str resolvedKey_def includes_js_def
        resolveCountry_def sample_parser_def string_eval)

text \<open>
  C6, amended. When the resolver runs (the response has status 200), one of the raw
  parameters \<open>validkeys\<close> and \<open>notallowedkeys\<close> is truthy. A parsed key set is not empty
  exactly when its raw parameter is a string with a comma-separated piece that is not
  blank, so both parsed sets can be empty; the resolver then returns the default key.
\<close>

theorem resolver_key_sets:
  assumes "resolve_user_input parse q = Inr r" and "status r = 200"
  shows "(truthy (validkeys q) \<or> truthy (notallowedkeys q))
         \<and> (parseKeys (validkeys q) \<noteq> [] \<longleftrightarrow>
              (\<exists>keys. validkeys q = Str keys
                 \<and> (\<exists>seg\<in>set (split_js CHR '','' keys). trim seg \<noteq> [])))
         \<and> (parseKeys (notallowedkeys q) \<noteq> [] \<longleftrightarrow>
              (\<exists>keys. notallowedkeys q = Str keys
                 \<and> (\<exists>seg\<in>set (split_js CHR '','' keys). trim seg \<noteq> [])))
         \<and> (parseKeys (validkeys q) = [] \<and> parseKeys (notallowedkeys q) = [] \<longrightarrow>
              (\<exists>dk. normalizeDefaultkey ''garbage'' (defaultkey q) = Inr dk
                 \<and> r = ok_response dk))"
proof -
  have bad: "status (bad_request m) \<noteq> 200" for m
    by (simp add: bad_request_def)
  from assms obtain dk where dk: "normalizeDefaultkey ''garbage'' (defaultkey q) = Inr dk"
    by (cases "normalizeDefaultkey ''garbage'' (defaultkey q)")
       (simp_all add: resolve_user_input_def)
  from assms dk bad have inp: "\<not> missingField (input q)"
    by (auto simp: resolve_user_input_def)
  from assms dk bad inp have keys: "truthy (validkeys q) \<or> truthy (notallowedkeys q)"
    by (auto simp: resolve_user_input_def split: if_splits)
  from inp obtain s where s: "input q = Str s" "trim s \<noteq> []"
    by (cases "input q") (simp_all add: missingField_Str)
  have "parseKeys (validkeys q) = [] \<and> parseKeys (notallowedkeys q) = [] \<longrightarrow>
          r = ok_response dk"
    using resolve_user_input_valid [OF s keys dk, of parse] assms(1)
    by (auto simp: resolvedKey_def includes_js_def split: option.splits)
  with keys dk show ?thesis
    using parseKeys_nonempty_iff [of "validkeys q"] parseKeys_nonempty_iff [of "notallowedkeys q"]
    by blast
qed

theorem resolver_key_sets_witness:
  "resolve_user_input sample_parser
        \<lparr>input = Str ''+14155550100'', validkeys = Str '', ,'', notallowedkeys = Str '''',
         defaultkey = Undefined, allowednumbers = Undefined\<rparr>
      = Inr (ok_response ''garbage'')
   \<and> status (ok_response ''garbage'') = 200
   \<and> truthy (Str '', ,'')
   \<and> parseKeys (Str '', ,'') = [] \<and> parseKeys (Str '''') = []"
proof -
  let ?q = "\<lparr>input = Str ''+14155550100'', validkeys = Str '', ,'', notallowedkeys = Str '''',
         defaultkey = Undefined, allowednumbers = Undefined\<rparr>"
  have r: "resolve_user_input sample_parser ?q = Inr (ok_response ''garbage'')"
    by (simp add: resolve_user_input_def missingField_Str resolvedKey_def includes_js_def
        resolveCountry_def sample_parser_def string_eval)
  have st: "status (ok_response ''garbage'') = 200"
    by (simp add: ok_response_def)
  have sp: "split_js CHR '','' '', ,'' = ['''', '' '', '''']" by simp
  from resolver_key_sets [OF r st]
  have "truthy (validkeys ?q) \<or> truthy (notallowedkeys ?q)"
    and "parseKeys (validkeys ?q) \<noteq> [] \<longleftrightarrow>
              (\<exists>keys. validkeys ?q = Str keys
                 \<and> (\<exists>seg\<in>set (split_js CHR '','' keys). trim seg \<noteq> []))"
    and "parseKeys (notallowedkeys ?q) \<noteq> [] \<longleftrightarrow>
              (\<exists>keys. notallowedkeys ?q = Str keys
                 \<and> (\<exists>seg\<in>set (split_js CHR '','' keys). trim seg \<noteq> []))"
    by blast+
  then have "truthy (Str '', ,'')" and "parseKeys (Str '', ,'') = []"
    and "parseKeys (Str '''') = []"
    by (simp_all add: sp trim_def isWhiteSpace_def del: parseKeys.simps)
  with r st show ?thesis by blast
qed


section \<open>Letter case of the parameter values\<close>

lemma toLowerChar_shape:
  "toLowerChar c = c \<or> (c \<in> set upperCaseLetters \<and> toLowerChar c \<in> set lowerCaseLetters)"
proof (cases "map_of (zip upperCaseLetters lowerCaseLetters) c")
  case None
  then show ?thesis by (simp add: toLowerChar_def)
next
  case (Some l)
  then have "(c, l) \<in> set (zip upperCaseLetters lowerCaseLetters)"
    by (rule map_of_SomeD)
  then have "c \<in> set upperCaseLetters" and "l \<in> set lowerCaseLetters"
    by (auto dest: set_zip_leftD set_zip_rightD)
  with Some show ?thesis by (simp add: toLowerChar_def)
qed

lemma letters_plain:
  "\<forall>c\<in>set (upperCaseLetters @ lowerCaseLetters). \<not> isWhiteSpace c \<and> c \<noteq> CHR '',''"
  unfolding upperCaseLetters_def lowerCaseLetters_def isWhiteSpace_def by simp

lemma toLowerChar_changes_letters:
  assumes "toLowerChar c \<noteq> c"
  shows "c \<in> set (upperCaseLetters @ lowerCaseLetters)"
    and "toLowerChar c \<in> set (upperCaseLetters @ lowerCaseLetters)"
  using assms toLowerChar_shape [of c] by simp_all

lemma isWhiteSpace_toLowerChar: "isWhiteSpace (toLowerChar c) \<longleftrightarrow> isWhiteSpace c"
proof (cases "toLowerChar c = c")
  case True
  then show ?thesis by simp
next
  case False
  from toLowerChar_changes_letters [OF this] letters_plain show ?thesis by blast
qed

lemma comma_toLowerChar: "toLowerChar c = CHR '','' \<longleftrightarrow> c = CHR '',''"
proof (cases "toLowerChar c = c")
  case True
  then show ?thesis by simp
next
  case False
  from toLowerChar_changes_letters [OF this] letters_plain show ?thesis by blast
qed

lemma map_dropWhile_invariant:
  assumes "\<And>c. P (f c) \<longleftrightarrow> P c"
  shows "map f (dropWhile P xs) = dropWhile P (map f xs)"
  by (induction xs) (simp_all add: assms)

lemma toLowerCase_trim: "toLowerCase (trim s) = trim (toLowerCase s)"
proof -
  have d: "map toLowerChar (dropWhile isWhiteSpace xs)
             = dropWhile isWhiteSpace (map toLowerChar xs)" for xs
    by (rule map_dropWhile_invariant) (rule isWhiteSpace_toLowerChar)
  show ?thesis
    unfolding toLowerCase_def trim_def rev_map [symmetric] d ..
qed

lemma split_js_map:
  assumes "\<And>c. f c = sep \<longleftrightarrow> c = sep"
  shows "split_js sep (map f s) = map (map f) (split_js sep s)"
proof (induction s)
  case Nil
  show ?case by simp
next
  case (Cons c cs)
  obtain w ws where ws: "split_js sep cs = w # ws"
    using split_js_not_Nil [of sep cs] by (cases "split_js sep cs") simp_all
  with Cons show ?case by (simp add: assms)
qed

lemma parseKeys_Str:
  "parseKeys (Str keys) =
     filter (\<lambda>k. k \<noteq> []) (map trim (split_js CHR '','' (toLowerCase keys)))"
proof (cases "keys = []")
  case True
  then show ?thesis by (simp add: toLowerCase_def trim_def)
next
  case False
  have "map (\<lambda>k. toLowerCase (trim k)) (split_js CHR '','' keys)
          = map trim (split_js CHR '','' (toLowerCase keys))"
    unfolding toLowerCase_trim
    unfolding toLowerCase_def split_js_map [of toLowerChar, OF comma_toLowerChar]
    by simp
  with False show ?thesis by simp
qed

lemma caseVariant_truthy: "caseVariant v w \<Longrightarrow> truthy v = truthy w"
  by (induction v w rule: caseVariant.induct) (auto simp: toLowerCase_def)

lemma caseVariant_parseKeys: "caseVariant v w \<Longrightarrow> parseKeys v = parseKeys w"
  by (induction v w rule: caseVariant.induct) (simp_all add: parseKeys_Str del: parseKeys.simps)

lemma caseVariant_normalizeDefaultkey:
  "caseVariant v w \<Longrightarrow> normalizeDefaultkey fallback v = normalizeDefaultkey fallback w"
  by (induction v w rule: caseVariant.induct) (simp_all add: toLowerCase_trim)

text \<open>
  The whitelist compares \<open>input\<close> and \<open>allowednumbers\<close> as they are written: a change of
  letter case in \<open>input\<close> changes the response.
\<close>

theorem whitelist_input_case_matters:
  "caseVariant (Str ''WHATSAPP:+14155550100'') (Str ''whatsapp:+14155550100'')
   \<and> resolve_number_whitelist
        \<lparr>input = Str ''whatsapp:+14155550100'', validkeys = Undefined,
         notallowedkeys = Undefined, defaultkey = Undefined,
         allowednumbers = Str ''whatsapp:+14155550100''\<rparr>
      = Inr (ok_response ''@llowed'')
   \<and> resolve_number_whitelist
        \<lparr>input = Str ''WHATSAPP:+14155550100'', validkeys = Undefined,
         notallowedkeys = Undefined, defaultkey = Undefined,
         allowednumbers = Str ''whatsapp:+14155550100''\<rparr>
      = Inr (ok_response ''not_@llowed'')"
  by (simp add: resolve_number_whitelist_def missingField_Str allowedArray_def
        number_eval string_eval includes_js_def)

text \<open>
  C9, amended. The values of \<open>validkeys\<close>, \<open>notallowedkeys\<close> and \<open>defaultkey\<close> are
  case-insensitive: on both endpoints a change of letter case in them, everything else
  equal, gives the same outcome. (The values of \<open>input\<close> and \<open>allowednumbers\<close> are not
  lowercased.)
\<close>

theorem key_parameters_case_insensitive:
  "(\<forall>parse q q'.
      input q' = input q
      \<and> caseVariant (validkeys q) (validkeys q')
      \<and> caseVariant (notallowedkeys q) (notallowedkeys q')
      \<and> caseVariant (defaultkey q) (defaultkey q')
      \<longrightarrow> resolve_user_input parse q' = resolve_user_input parse q)
   \<and> (\<forall>q q'.
         input q' = input q \<and> allowednumbers q' = allowednumbers q
         \<and> caseVariant (defaultkey q) (defaultkey q')
         \<longrightarrow> resolve_number_whitelist q' = resolve_number_whitelist q)"
proof (intro conjI allI impI)
  fix parse and q q' :: query
  assume h: "input q' = input q
      \<and> caseVariant (validkeys q) (validkeys q')
      \<and> caseVariant (notallowedkeys q) (notallowedkeys q')
      \<and> caseVariant (defaultkey q) (defaultkey q')"
  then have "truthy (validkeys q) = truthy (validkeys q')"
    and "truthy (notallowedkeys q) = truthy (notallowedkeys q')"
    and "parseKeys (validkeys q) = parseKeys (validkeys q')"
    and "parseKeys (notallowedkeys q) = parseKeys (notallowedkeys q')"
    and "normalizeDefaultkey ''garbage'' (defaultkey q)
           = normalizeDefaultkey ''garbage'' (defaultkey q')"
    by (simp_all add: caseVariant_truthy caseVariant_parseKeys caseVariant_normalizeDefaultkey)
  with h show "resolve_user_input parse q' = resolve_user_input parse q"
    unfolding resolve_user_input_def
    by (simp add: Let_def cong: if_cong sum.case_cong qvalue.case_cong)
next
  fix q q' :: query
  assume h: "input q' = input q \<and> allowednumbers q' = allowednumbers q
         \<and> caseVariant (defaultkey q) (defaultkey q')"
  then have "normalizeDefaultkey ''not_@llowed'' (defaultkey q)
           = normalizeDefaultkey ''not_@llowed'' (defaultkey q')"
    by (simp add: caseVariant_normalizeDefaultkey)
  with h show "resolve_number_whitelist q' = resolve_number_whitelist q"
    unfolding resolve_number_whitelist_def
    by (simp add: Let_def cong: if_cong sum.case_cong option.case_cong qvalue.case_cong)
qed

theorem key_parameters_case_insensitive_witness:
  "caseVariant (Str ''US,ca'') (Str ''us,CA'')
   \<and> caseVariant (Str ''Other'') (Str ''OTHER'')
   \<and> resolve_user_input sample_parser
        \<lparr>input = Str ''+14155550100'', validkeys = Str ''us,CA'', notallowedkeys = Undefined,
         defaultkey = Str ''OTHER'', allowednumbers = Undefined\<rparr>
      = Inr (ok_response ''us'')"
proof -
  let ?q = "\<lparr>input = Str ''+14155550100'', validkeys = Str ''US,ca'',
             notallowedkeys = Undefined, defaultkey = Str ''Other'',
             allowednumbers = Undefined\<rparr>"
  let ?q' = "\<lparr>input = Str ''+14155550100'', validkeys = Str ''us,CA'',
             notallowedkeys = Undefined, defaultkey = Str ''OTHER'',
             allowednumbers = Undefined\<rparr>"
  have v: "caseVariant (Str ''US,ca'') (Str ''us,CA'')"
    and d: "caseVariant (Str ''Other'') (Str ''OTHER'')"
    by (simp_all add: string_eval)
  have r: "resolve_user_input sample_parser ?q = Inr (ok_response ''us'')"
    by (simp add: resolve_user_input_def missingField_Str resolvedKey_def includes_js_def
        resolveCountry_def sample_parser_def string_eval)
  from key_parameters_case_insensitive
  have "input ?q' = input ?q
      \<and> caseVariant (validkeys ?q) (validkeys ?q')
      \<and> caseVariant (notallowedkeys ?q) (notallowedkeys ?q')
      \<and> caseVariant (defaultkey ?q) (defaultkey ?q')
      \<longrightarrow> resolve_user_input sample_parser ?q' = resolve_user_input sample_parser ?q"
    by blast
  with v d r show ?thesis by simp
qed

end
